theory Spec2Isabelle
  imports Main "HOL-Library.Word"
begin

unbundle bit_operations_syntax

section \<open>Values shared by the store, the index and the segment\<close>

type_synonym byte = "8 word"
type_synonym uint32 = "32 word"
type_synonym uint64 = "64 word"

text \<open>
  Go's \<open>int64\<close> is kept as its two's complement bit pattern: the conversions
  \<open>int64(x)\<close> and \<open>uint64(x)\<close> leave the bits alone, \<open>sint\<close> reads the sign and
  \<open>-1\<close> is the pattern of all ones.
\<close>

type_synonym int64 = "64 word"

text \<open>
  The error values the package hands to its callers: \<open>io.EOF\<close>, a failed system call,
  and a failure of the record codec.
\<close>

datatype error = EOF | IOError | CodecError

text \<open>
  What a call does: it returns its values with a nil error (\<open>Ok\<close>), returns a
  non-nil error (\<open>Err\<close>), or the Go runtime panics inside it (\<open>Panic\<close>). A panic is
  not an error value: no \<open>if err != nil\<close> of a caller sees it.
\<close>

datatype 'a result = Ok 'a | Err error | Panic

subsection \<open>encoding/binary, big endian\<close>

definition PutUint32 :: "uint32 \<Rightarrow> byte list" where
  "PutUint32 v = [ucast (drop_bit 24 v), ucast (drop_bit 16 v), ucast (drop_bit 8 v), ucast v]"

definition PutUint64 :: "uint64 \<Rightarrow> byte list" where
  "PutUint64 v =
     [ucast (drop_bit 56 v), ucast (drop_bit 48 v), ucast (drop_bit 40 v), ucast (drop_bit 32 v),
      ucast (drop_bit 24 v), ucast (drop_bit 16 v), ucast (drop_bit 8 v), ucast v]"

text \<open>\<open>enc.Uint32(b)\<close> and \<open>enc.Uint64(b)\<close> index \<open>b[3]\<close> and \<open>b[7]\<close> first: a shorter slice panics.\<close>

definition Uint32 :: "byte list \<Rightarrow> uint32 result" where
  "Uint32 b =
     (if length b < 4 then Panic
      else Ok (push_bit 24 (ucast (b ! 0)) OR push_bit 16 (ucast (b ! 1)) OR
               push_bit 8 (ucast (b ! 2)) OR ucast (b ! 3)))"

definition Uint64 :: "byte list \<Rightarrow> uint64 result" where
  "Uint64 b =
     (if length b < 8 then Panic
      else Ok (push_bit 56 (ucast (b ! 0)) OR push_bit 48 (ucast (b ! 1)) OR
               push_bit 40 (ucast (b ! 2)) OR push_bit 32 (ucast (b ! 3)) OR
               push_bit 24 (ucast (b ! 4)) OR push_bit 16 (ucast (b ! 5)) OR
               push_bit 8 (ucast (b ! 6)) OR ucast (b ! 7)))"

subsection \<open>Slices of a byte array\<close>

text \<open>
  The slice expression \<open>a[lo:hi]\<close> of a byte slice whose capacity is its length (a
  mapped region): the runtime panics unless \<open>lo \<le> hi \<le> len(a)\<close>.
\<close>

definition slice :: "byte list \<Rightarrow> nat \<Rightarrow> nat \<Rightarrow> byte list result" where
  "slice a lo hi =
     (if lo \<le> hi \<and> hi \<le> length a then Ok (take (hi - lo) (drop lo a)) else Panic)"

text \<open>
  \<open>enc.PutUint32(a[lo:hi], v)\<close> and \<open>enc.PutUint64(a[lo:hi], v)\<close>: the slice shares
  the array, so the encoded bytes \<open>bs\<close> land in \<open>a\<close> from \<open>lo\<close> on. It panics when the
  slice expression does, or when the slice is shorter than the encoding.
\<close>

definition put_slice :: "byte list \<Rightarrow> nat \<Rightarrow> nat \<Rightarrow> byte list \<Rightarrow> byte list result" where
  "put_slice a lo hi bs =
     (case slice a lo hi of
        Panic \<Rightarrow> Panic
      | Err e \<Rightarrow> Err e
      | Ok s \<Rightarrow>
          if length s < length bs then Panic
          else Ok (take lo a @ bs @ drop (lo + length bs) a))"

section \<open>The operating system, as far as the package uses it\<close>

text \<open>
  The files of a segment: \<open>path.Join(dir, fmt.Sprintf("%d%s", baseOffset, ".store"))\<close>
  and the same with \<open>".index"\<close>. The name is kept as its parts.
\<close>

datatype path = StorePath string uint64 | IndexPath string uint64

text \<open>
  The files on disk by name, and the names on which system calls currently fail (a
  missing directory, a full or failing device, a permission). A write either lands whole
  or fails and leaves the file alone.
\<close>

record world =
  files :: "path \<rightharpoonup> byte list"
  faulty :: "path set"

text \<open>\<open>os.OpenFile\<close> with \<open>O_CREATE\<close>: a missing file comes into being, empty.\<close>

definition os_OpenFile :: "world \<Rightarrow> path \<Rightarrow> error + world" where
  "os_OpenFile w p =
     (if p \<in> faulty w then Inl IOError
      else case files w p of
             None \<Rightarrow> Inr (w\<lparr>files := (files w)(p \<mapsto> [])\<rparr>)
           | Some _ \<Rightarrow> Inr w)"

text \<open>\<open>os.Stat(name)\<close>, of which the callers read \<open>Size()\<close> only.\<close>

definition os_Stat :: "world \<Rightarrow> path \<Rightarrow> error + nat" where
  "os_Stat w p =
     (if p \<in> faulty w then Inl IOError
      else case files w p of None \<Rightarrow> Inl IOError | Some d \<Rightarrow> Inr (length d))"

text \<open>
  \<open>os.Truncate(name, n)\<close> and \<open>File.Truncate(n)\<close> with \<open>n\<close> an \<open>int64\<close>: a negative
  length is refused; the file is cut, or grown with zero bytes, to \<open>n\<close> bytes.
\<close>

definition os_Truncate :: "world \<Rightarrow> path \<Rightarrow> int64 \<Rightarrow> error + world" where
  "os_Truncate w p n =
     (if p \<in> faulty w \<or> sint n < 0 then Inl IOError
      else case files w p of
             None \<Rightarrow> Inl IOError
           | Some d \<Rightarrow>
               Inr (w\<lparr>files := (files w)(p \<mapsto> take (unat n) d @ replicate (unat n - length d) 0)\<rparr>))"

text \<open>
  \<open>gommap.Map(fd, prot, MAP_SHARED)\<close> maps the whole file as it is at the call; the
  system call refuses a length of zero.
\<close>

definition gommap_Map :: "world \<Rightarrow> path \<Rightarrow> error + byte list" where
  "gommap_Map w p =
     (if p \<in> faulty w then Inl IOError
      else case files w p of
             None \<Rightarrow> Inl IOError
           | Some d \<Rightarrow> if d = [] then Inl IOError else Inr d)"

text \<open>\<open>MMap.Sync(MS_SYNC)\<close>: the mapped bytes are the file's bytes.\<close>

definition gommap_Sync :: "world \<Rightarrow> path \<Rightarrow> byte list \<Rightarrow> error + world" where
  "gommap_Sync w p m =
     (if p \<in> faulty w then Inl IOError
      else case files w p of
             None \<Rightarrow> Inl IOError
           | Some _ \<Rightarrow> Inr (w\<lparr>files := (files w)(p \<mapsto> m)\<rparr>))"

text \<open>\<open>File.Sync()\<close> and \<open>File.Close()\<close> change no byte of the file.\<close>

definition file_Sync :: "world \<Rightarrow> path \<Rightarrow> error + unit" where
  "file_Sync w p = (if p \<in> faulty w then Inl IOError else Inr ())"

definition file_Close :: "world \<Rightarrow> path \<Rightarrow> error + unit" where
  "file_Close w p = (if p \<in> faulty w then Inl IOError else Inr ())"

text \<open>\<open>File.Write(b)\<close> on a file opened with \<open>O_APPEND\<close>.\<close>

definition file_Write :: "world \<Rightarrow> path \<Rightarrow> byte list \<Rightarrow> error + world" where
  "file_Write w p b =
     (if p \<in> faulty w then Inl IOError
      else case files w p of
             None \<Rightarrow> Inl IOError
           | Some d \<Rightarrow> Inr (w\<lparr>files := (files w)(p \<mapsto> d @ b)\<rparr>))"

text \<open>
  \<open>File.ReadAt(b, off)\<close> with \<open>len(b) = n\<close>: a negative offset is an error; nothing is
  read for an empty \<open>b\<close>; the end of the file before \<open>b\<close> is full is \<open>io.EOF\<close>.
\<close>

definition file_ReadAt :: "world \<Rightarrow> path \<Rightarrow> nat \<Rightarrow> int64 \<Rightarrow> error + byte list" where
  "file_ReadAt w p n off =
     (if sint off < 0 then Inl IOError
      else if n = 0 then Inr []
      else if p \<in> faulty w then Inl IOError
      else case files w p of
             None \<Rightarrow> Inl IOError
           | Some d \<Rightarrow>
               if length d < unat off + n then Inl EOF
               else Inr (take n (drop (unat off) d)))"

text \<open>\<open>os.Remove(name)\<close>.\<close>

definition os_Remove :: "world \<Rightarrow> path \<Rightarrow> error + world" where
  "os_Remove w p =
     (if p \<in> faulty w then Inl IOError
      else case files w p of
             None \<Rightarrow> Inl IOError
           | Some _ \<Rightarrow> Inr (w\<lparr>files := (files w)(p := None)\<rparr>))"

subsection \<open>bufio.Writer\<close>

text \<open>
  The buffered writer of the standard library over a file: the bytes not yet written
  (\<open>wbuf\<close>, at most \<open>bufSize\<close> of them) and the first error a write to the file gave
  (\<open>werr\<close>), which every later call returns again.
\<close>

record writer =
  wbuf :: "byte list"
  werr :: "error option"

definition bufSize :: nat where
  "bufSize = 4096"

definition bufio_NewWriter :: writer where
  "bufio_NewWriter = \<lparr>wbuf = [], werr = None\<rparr>"

definition Available :: "writer \<Rightarrow> nat" where
  "Available b = bufSize - length (wbuf b)"

definition bufio_Flush :: "path \<Rightarrow> writer \<Rightarrow> world \<Rightarrow> error option \<times> writer \<times> world" where
  "bufio_Flush f b w =
     (case werr b of
        Some e \<Rightarrow> (Some e, b, w)
      | None \<Rightarrow>
          if wbuf b = [] then (None, b, w)
          else
            (case file_Write w f (wbuf b) of
               Inr w' \<Rightarrow> (None, b\<lparr>wbuf := []\<rparr>, w')
             | Inl e \<Rightarrow> (Some e, b\<lparr>werr := Some e\<rparr>, w)))"

text \<open>
  \<open>Writer.Write(p)\<close>, its loop unrolled: bytes that fit are buffered; a write larger
  than the room left goes to the file directly when the buffer is empty, and otherwise
  fills the buffer, flushes it and carries on with the rest. It returns the number of
  bytes taken and the error.
\<close>

definition bufio_Write ::
    "path \<Rightarrow> writer \<Rightarrow> world \<Rightarrow> byte list \<Rightarrow> (nat \<times> error option) \<times> writer \<times> world" where
  "bufio_Write f b w p =
     (case werr b of
        Some e \<Rightarrow> ((0, Some e), b, w)
      | None \<Rightarrow>
          if length p \<le> Available b then ((length p, None), b\<lparr>wbuf := wbuf b @ p\<rparr>, w)
          else if wbuf b = [] then
            (case file_Write w f p of
               Inr w' \<Rightarrow> ((length p, None), b, w')
             | Inl e \<Rightarrow> ((0, Some e), b\<lparr>werr := Some e\<rparr>, w))
          else
            (let n = Available b in
             (case bufio_Flush f (b\<lparr>wbuf := wbuf b @ take n p\<rparr>) w of
                (Some e, b1, w1) \<Rightarrow> ((n, Some e), b1, w1)
              | (None, b1, w1) \<Rightarrow>
                  (if length (drop n p) \<le> Available b1
                   then ((length p, None), b1\<lparr>wbuf := wbuf b1 @ drop n p\<rparr>, w1)
                   else
                     (case file_Write w1 f (drop n p) of
                        Inr w2 \<Rightarrow> ((length p, None), b1, w2)
                      | Inl e \<Rightarrow> ((n, Some e), b1\<lparr>werr := Some e\<rparr>, w1))))))"

text \<open>\<open>binary.Write(w, enc, uint64(v))\<close>: one \<open>Write\<close> of the eight encoded bytes.\<close>

definition binary_Write :: "path \<Rightarrow> writer \<Rightarrow> world \<Rightarrow> uint64 \<Rightarrow> error option \<times> writer \<times> world" where
  "binary_Write f b w v =
     (case bufio_Write f b w (PutUint64 v) of ((_, err), b', w') \<Rightarrow> (err, b', w'))"

section \<open>The configuration (internal/log/config.go)\<close>

text \<open>The fields of \<open>Config.Segment\<close>.\<close>

record Config =
  MaxStoreBytes :: uint64
  MaxIndexBytes :: uint64
  InitialOffset :: uint64

section \<open>The index (internal/log/index.go)\<close>

definition offWidth :: uint64 where
  "offWidth = 4"

definition posWidth :: uint64 where
  "posWidth = 8"

definition entryWidth :: uint64 where
  "entryWidth = offWidth + posWidth"

text \<open>
  The index: its file, held by name, the mapped region and the size, which is where the
  next entry goes.
\<close>

record index =
  file_index :: path
  mmap :: "byte list"
  size_index :: uint64

definition index_Read :: "index \<Rightarrow> int64 \<Rightarrow> (uint32 \<times> uint64) result" where
  "index_Read idx offsetGiven =
     (if size_index idx = 0 then Err EOF
      else
        let offsetUsed :: uint32 =
              (if offsetGiven = - 1
               then (ucast (size_index idx) div ucast entryWidth) - 1
               else ucast offsetGiven)
        in
          if size_index idx < (ucast offsetUsed * entryWidth) + entryWidth then Err EOF
          else
            let entryStart :: uint64 = ucast offsetUsed * entryWidth in
            case slice (mmap idx) (unat entryStart) (unat offWidth) of
              Panic \<Rightarrow> Panic
            | Err e \<Rightarrow> Err e
            | Ok b1 \<Rightarrow>
                (case Uint32 b1 of
                   Panic \<Rightarrow> Panic
                 | Err e \<Rightarrow> Err e
                 | Ok offsetUsed' \<Rightarrow>
                     (case slice (mmap idx) (unat (entryStart + offWidth))
                             (unat (entryStart + entryWidth)) of
                        Panic \<Rightarrow> Panic
                      | Err e \<Rightarrow> Err e
                      | Ok b2 \<Rightarrow>
                          (case Uint64 b2 of
                             Panic \<Rightarrow> Panic
                           | Err e \<Rightarrow> Err e
                           | Ok storePosition \<Rightarrow> Ok (offsetUsed', storePosition)))))"

definition index_Write :: "index \<Rightarrow> uint32 \<Rightarrow> uint64 \<Rightarrow> unit result \<times> index" where
  "index_Write idx offset storePosition =
     (if word_of_nat (length (mmap idx)) < size_index idx + entryWidth then (Err EOF, idx)
      else
        case put_slice (mmap idx) (unat (size_index idx)) (unat (size_index idx + offWidth))
               (PutUint32 offset) of
          Panic \<Rightarrow> (Panic, idx)
        | Err e \<Rightarrow> (Err e, idx)
        | Ok m1 \<Rightarrow>
            (case put_slice m1 (unat (size_index idx + offWidth))
                    (unat (size_index idx + entryWidth)) (PutUint64 storePosition) of
               Panic \<Rightarrow> (Panic, idx\<lparr>mmap := m1\<rparr>)
             | Err e \<Rightarrow> (Err e, idx\<lparr>mmap := m1\<rparr>)
             | Ok m2 \<Rightarrow> (Ok (), idx\<lparr>mmap := m2, size_index := size_index idx + entryWidth\<rparr>)))"

definition newIndex :: "path \<Rightarrow> Config \<Rightarrow> world \<Rightarrow> index result \<times> world" where
  "newIndex f c w =
     (case os_Stat w f of
        Inl e \<Rightarrow> (Err e, w)
      | Inr fsize \<Rightarrow>
          (case os_Truncate w f (MaxIndexBytes c) of
             Inl e \<Rightarrow> (Err e, w)
           | Inr w1 \<Rightarrow>
               (case gommap_Map w1 f of
                  Inl e \<Rightarrow> (Err e, w1)
                | Inr m \<Rightarrow>
                    (Ok \<lparr>file_index = f, mmap = m, size_index = word_of_nat fsize\<rparr>, w1))))"

definition index_Close :: "index \<Rightarrow> world \<Rightarrow> error option \<times> world" where
  "index_Close idx w =
     (case gommap_Sync w (file_index idx) (mmap idx) of
        Inl e \<Rightarrow> (Some e, w)
      | Inr w1 \<Rightarrow>
          (case file_Sync w1 (file_index idx) of
             Inl e \<Rightarrow> (Some e, w1)
           | Inr _ \<Rightarrow>
               (case os_Truncate w1 (file_index idx) (size_index idx) of
                  Inl e \<Rightarrow> (Some e, w1)
                | Inr w2 \<Rightarrow>
                    (case file_Close w2 (file_index idx) of
                       Inl e \<Rightarrow> (Some e, w2)
                     | Inr _ \<Rightarrow> (None, w2)))))"

definition index_Name :: "index \<Rightarrow> path" where
  "index_Name idx = file_index idx"

section \<open>The store\<close>

definition lenWidth :: nat where
  "lenWidth = 8"

text \<open>The mutex of the store is left out: the calls are modelled one at a time.\<close>

record store =
  File :: path
  buf :: writer
  size_store :: uint64

definition newStore :: "path \<Rightarrow> world \<Rightarrow> store result" where
  "newStore f w =
     (case os_Stat w f of
        Inl e \<Rightarrow> Err e
      | Inr fsize \<Rightarrow> Ok \<lparr>File = f, buf = bufio_NewWriter, size_store = word_of_nat fsize\<rparr>)"

text \<open>
  \<open>Append\<close> returns Go's three values, the number of bytes written, the position and
  the error: \<open>(0, 0, err)\<close> when a write fails.
\<close>

definition store_Append ::
    "store \<Rightarrow> byte list \<Rightarrow> world \<Rightarrow> (uint64 \<times> uint64 \<times> error option) \<times> store \<times> world" where
  "store_Append s data w =
     (let pos = size_store s in
      (case binary_Write (File s) (buf s) w (word_of_nat (length data)) of
         (Some e, b1, w1) \<Rightarrow> ((0, 0, Some e), s\<lparr>buf := b1\<rparr>, w1)
       | (None, b1, w1) \<Rightarrow>
           (case bufio_Write (File s) b1 w1 data of
              ((bytesWritten, Some e), b2, w2) \<Rightarrow> ((0, 0, Some e), s\<lparr>buf := b2\<rparr>, w2)
            | ((bytesWritten, None), b2, w2) \<Rightarrow>
                (let bytesWritten' = bytesWritten + lenWidth in
                 ((word_of_nat bytesWritten', pos, None),
                  s\<lparr>buf := b2, size_store := size_store s + word_of_nat bytesWritten'\<rparr>, w2)))))"

text \<open>
  \<open>make([]byte, n)\<close> with \<open>n\<close> a \<open>uint64\<close> panics beyond the largest allocation of
  the runtime, \<open>2 ^ 48\<close> bytes on the 64-bit platforms.
\<close>

definition maxAlloc :: nat where
  "maxAlloc = 2 ^ 48"

definition store_Read :: "store \<Rightarrow> uint64 \<Rightarrow> world \<Rightarrow> byte list result \<times> store \<times> world" where
  "store_Read s pos w =
     (case bufio_Flush (File s) (buf s) w of
        (Some e, b1, w1) \<Rightarrow> (Err e, s\<lparr>buf := b1\<rparr>, w1)
      | (None, b1, w1) \<Rightarrow>
          (case file_ReadAt w1 (File s) lenWidth pos of
             Inl e \<Rightarrow> (Err e, s\<lparr>buf := b1\<rparr>, w1)
           | Inr size' \<Rightarrow>
               (case Uint64 size' of
                  Panic \<Rightarrow> (Panic, s\<lparr>buf := b1\<rparr>, w1)
                | Err e \<Rightarrow> (Err e, s\<lparr>buf := b1\<rparr>, w1)
                | Ok n \<Rightarrow>
                    (if maxAlloc < unat n then (Panic, s\<lparr>buf := b1\<rparr>, w1)
                     else
                       (case file_ReadAt w1 (File s) (unat n) (pos + word_of_nat lenWidth) of
                          Inl e \<Rightarrow> (Err e, s\<lparr>buf := b1\<rparr>, w1)
                        | Inr recordSlice \<Rightarrow> (Ok recordSlice, s\<lparr>buf := b1\<rparr>, w1))))))"

definition store_ReadAt ::
    "store \<Rightarrow> nat \<Rightarrow> int64 \<Rightarrow> world \<Rightarrow> byte list result \<times> store \<times> world" where
  "store_ReadAt s n offset w =
     (case bufio_Flush (File s) (buf s) w of
        (Some e, b1, w1) \<Rightarrow> (Err e, s\<lparr>buf := b1\<rparr>, w1)
      | (None, b1, w1) \<Rightarrow>
          (case file_ReadAt w1 (File s) n offset of
             Inl e \<Rightarrow> (Err e, s\<lparr>buf := b1\<rparr>, w1)
           | Inr b \<Rightarrow> (Ok b, s\<lparr>buf := b1\<rparr>, w1)))"

definition store_Close :: "store \<Rightarrow> world \<Rightarrow> error option \<times> store \<times> world" where
  "store_Close s w =
     (case bufio_Flush (File s) (buf s) w of
        (Some e, b1, w1) \<Rightarrow> (Some e, s\<lparr>buf := b1\<rparr>, w1)
      | (None, b1, w1) \<Rightarrow>
          (case file_Close w1 (File s) of
             Inl e \<Rightarrow> (Some e, s\<lparr>buf := b1\<rparr>, w1)
           | Inr _ \<Rightarrow> (None, s\<lparr>buf := b1\<rparr>, w1)))"

definition store_Name :: "store \<Rightarrow> path" where
  "store_Name s = File s"

section \<open>The segment\<close>

text \<open>
  \<open>api.Record\<close> is declared in the generated package \<open>api/v1\<close>, which is not among
  the sources; its fields here are the two the package and its test use. The codec the
  segment calls (\<open>proto.Marshal\<close>, \<open>proto.Unmarshal\<close>) is a parameter.
\<close>

record api_Record =
  Value :: "byte list"
  Offset :: uint64

type_synonym marshal = "api_Record \<Rightarrow> byte list result"
type_synonym unmarshal = "byte list \<Rightarrow> api_Record result"

record segment =
  store :: store
  index :: index
  baseOffset :: uint64
  nextOffset :: uint64
  config :: Config

definition newSegment :: "string \<Rightarrow> uint64 \<Rightarrow> Config \<Rightarrow> world \<Rightarrow> segment result \<times> world" where
  "newSegment dir baseOffset' c w =
     (case os_OpenFile w (StorePath dir baseOffset') of
        Inl e \<Rightarrow> (Err e, w)
      | Inr w1 \<Rightarrow>
          (case newStore (StorePath dir baseOffset') w1 of
             Err e \<Rightarrow> (Err e, w1)
           | Panic \<Rightarrow> (Panic, w1)
           | Ok st \<Rightarrow>
               (case os_OpenFile w1 (IndexPath dir baseOffset') of
                  Inl e \<Rightarrow> (Err e, w1)
                | Inr w2 \<Rightarrow>
                    (case newIndex (IndexPath dir baseOffset') c w2 of
                       (Err e, w3) \<Rightarrow> (Err e, w3)
                     | (Panic, w3) \<Rightarrow> (Panic, w3)
                     | (Ok idx, w3) \<Rightarrow>
                         (case index_Read idx (- 1) of
                            Panic \<Rightarrow> (Panic, w3)
                          | Err _ \<Rightarrow>
                              (Ok \<lparr>store = st, index = idx, baseOffset = baseOffset',
                                   nextOffset = baseOffset', config = c\<rparr>, w3)
                          | Ok (off, _) \<Rightarrow>
                              (Ok \<lparr>store = st, index = idx, baseOffset = baseOffset',
                                   nextOffset = baseOffset' + ucast off + 1, config = c\<rparr>,
                               w3))))))"

text \<open>
  \<open>Append\<close> assigns \<open>record.Offset\<close> through the caller's pointer before it
  marshals. The error of \<open>s.store.Append(p)\<close> is bound to \<open>err\<close> and overwritten by
  the next statement, so only \<open>recordStart\<close> of the three values is read.
\<close>

definition segment_Append ::
    "marshal \<Rightarrow> segment \<Rightarrow> api_Record \<Rightarrow> world \<Rightarrow> uint64 result \<times> segment \<times> world" where
  "segment_Append proto_Marshal s record w =
     (let recordOffset = nextOffset s in
      (case proto_Marshal (record\<lparr>Offset := recordOffset\<rparr>) of
         Panic \<Rightarrow> (Panic, s, w)
       | Err e \<Rightarrow> (Err e, s, w)
       | Ok p \<Rightarrow>
           (case store_Append (store s) p w of
              ((_, recordStart, _), st, w1) \<Rightarrow>
                (case index_Write (index s) (ucast (nextOffset s - baseOffset s)) recordStart of
                   (Panic, idx) \<Rightarrow> (Panic, s\<lparr>store := st, index := idx\<rparr>, w1)
                 | (Err e, idx) \<Rightarrow> (Err e, s\<lparr>store := st, index := idx\<rparr>, w1)
                 | (Ok _, idx) \<Rightarrow>
                     (Ok recordOffset,
                      s\<lparr>store := st, index := idx, nextOffset := nextOffset s + 1\<rparr>, w1)))))"

definition segment_Read ::
    "unmarshal \<Rightarrow> segment \<Rightarrow> uint64 \<Rightarrow> world \<Rightarrow> api_Record result \<times> segment \<times> world" where
  "segment_Read proto_Unmarshal s offset w =
     (case index_Read (index s) (offset - baseOffset s) of
        Panic \<Rightarrow> (Panic, s, w)
      | Err e \<Rightarrow> (Err e, s, w)
      | Ok (_, storePosition) \<Rightarrow>
          (case store_Read (store s) storePosition w of
             (Panic, st, w1) \<Rightarrow> (Panic, s\<lparr>store := st\<rparr>, w1)
           | (Err e, st, w1) \<Rightarrow> (Err e, s\<lparr>store := st\<rparr>, w1)
           | (Ok entry, st, w1) \<Rightarrow> (proto_Unmarshal entry, s\<lparr>store := st\<rparr>, w1)))"

definition segment_IsMaxed :: "segment \<Rightarrow> bool" where
  "segment_IsMaxed s =
     (MaxStoreBytes (config s) \<le> size_store (store s) \<or>
      MaxIndexBytes (config s) \<le> size_index (index s))"

definition segment_Close :: "segment \<Rightarrow> world \<Rightarrow> error option \<times> segment \<times> world" where
  "segment_Close s w =
     (case index_Close (index s) w of
        (Some e, w1) \<Rightarrow> (Some e, s, w1)
      | (None, w1) \<Rightarrow>
          (case store_Close (store s) w1 of
             (Some e, st, w2) \<Rightarrow> (Some e, s\<lparr>store := st\<rparr>, w2)
           | (None, st, w2) \<Rightarrow> (None, s\<lparr>store := st\<rparr>, w2)))"

definition segment_Remove :: "segment \<Rightarrow> world \<Rightarrow> error option \<times> segment \<times> world" where
  "segment_Remove s w =
     (case segment_Close s w of
        (Some e, s1, w1) \<Rightarrow> (Some e, s1, w1)
      | (None, s1, w1) \<Rightarrow>
          (case os_Remove w1 (index_Name (index s1)) of
             Inl e \<Rightarrow> (Some e, s1, w1)
           | Inr w2 \<Rightarrow>
               (case os_Remove w2 (store_Name (store s1)) of
                  Inl e \<Rightarrow> (Some e, s1, w2)
                | Inr w3 \<Rightarrow> (None, s1, w3))))"

text \<open>A run of \<open>Append\<close> calls on one segment, each result kept in order.\<close>

fun appends ::
    "marshal \<Rightarrow> segment \<Rightarrow> api_Record list \<Rightarrow> world \<Rightarrow> uint64 result list \<times> segment \<times> world" where
  "appends m s [] w = ([], s, w)"
| "appends m s (r # rs) w =
     (case segment_Append m s r w of
        (res, s1, w1) \<Rightarrow>
          (case appends m s1 rs w1 of (ress, s2, w2) \<Rightarrow> (res # ress, s2, w2)))"

subsection \<open>A codec to run the segment with\<close>

text \<open>
  Modelled from the spec: the record codec (\<open>proto.Marshal\<close> and \<open>proto.Unmarshal\<close>
  on \<open>api.Record\<close>) is generated code that is not among the sources; the specification
  takes it as a pluggable dependency, any binary encoding of the record. This one writes
  the offset in eight bytes, then the value as it is, and stands in where a run needs
  actual bytes.
\<close>

definition plain_Marshal :: marshal where
  "plain_Marshal r = Ok (PutUint64 (Offset r) @ Value r)"

definition plain_Unmarshal :: unmarshal where
  "plain_Unmarshal b =
     (case Uint64 (take 8 b) of
        Panic \<Rightarrow> Err CodecError
      | Err e \<Rightarrow> Err e
      | Ok off \<Rightarrow> Ok \<lparr>Value = drop 8 b, Offset = off\<rparr>)"

section \<open>States the properties are run on\<close>

text \<open>The payload, the configuration and the base offset of the package's segment test.\<close>

definition hello_world :: "byte list" where
  "hello_world = [104, 101, 108, 108, 111, 32, 119, 111, 114, 108, 100]"

definition want :: api_Record where
  "want = \<lparr>Value = hello_world, Offset = 0\<rparr>"

definition test_Config :: Config where
  "test_Config = \<lparr>MaxStoreBytes = 1024, MaxIndexBytes = 36, InitialOffset = 0\<rparr>"

definition empty_dir :: world where
  "empty_dir = \<lparr>files = Map.empty, faulty = {}\<rparr>"

text \<open>A store of 27 bytes with nothing buffered, and a disk that fails under it.\<close>

definition store27 :: store where
  "store27 = \<lparr>File = StorePath ''d'' 16, buf = \<lparr>wbuf = [], werr = None\<rparr>, size_store = 27\<rparr>"

definition failing_disk :: world where
  "failing_disk = \<lparr>files = [StorePath ''d'' 16 \<mapsto> []], faulty = {StorePath ''d'' 16}\<rparr>"

text \<open>
  The index of the test after two appends, entries \<open>(0, 0)\<close> and \<open>(1, 27)\<close> in a region
  mapped at 36 bytes, and after the third, when the region is full.
\<close>

definition index_two_entries :: index where
  "index_two_entries =
     \<lparr>file_index = IndexPath ''d'' 16,
      mmap = [0, 0, 0, 0, 0, 0, 0, 0, 0, 0, 0, 0,
              0, 0, 0, 1, 0, 0, 0, 0, 0, 0, 0, 27,
              0, 0, 0, 0, 0, 0, 0, 0, 0, 0, 0, 0],
      size_index = 24\<rparr>"

definition index_three_entries :: index where
  "index_three_entries =
     \<lparr>file_index = IndexPath ''d'' 16,
      mmap = [0, 0, 0, 0, 0, 0, 0, 0, 0, 0, 0, 0,
              0, 0, 0, 1, 0, 0, 0, 0, 0, 0, 0, 27,
              0, 0, 0, 2, 0, 0, 0, 0, 0, 0, 0, 54],
      size_index = 36\<rparr>"

text \<open>
  The segment of the test at base offset \<open>base\<close>: its two files on a disk without
  faults, its index over the region mapped at 36 bytes, and the segment with \<open>pending\<close>
  in the store's buffer. \<open>frame off\<close> is what the store takes for the record \<open>want\<close>
  at offset \<open>off\<close>: the length 19, then the record as \<open>plain_Marshal\<close> writes it.
\<close>

definition zeros36 :: "byte list" where
  "zeros36 = [0, 0, 0, 0, 0, 0, 0, 0, 0, 0, 0, 0,
              0, 0, 0, 0, 0, 0, 0, 0, 0, 0, 0, 0,
              0, 0, 0, 0, 0, 0, 0, 0, 0, 0, 0, 0]"

definition test_disk :: "uint64 \<Rightarrow> byte list \<Rightarrow> byte list \<Rightarrow> world" where
  "test_disk base sf xf =
     \<lparr>files = [StorePath ''d'' base \<mapsto> sf, IndexPath ''d'' base \<mapsto> xf], faulty = {}\<rparr>"

definition test_index :: "uint64 \<Rightarrow> byte list \<Rightarrow> uint64 \<Rightarrow> index" where
  "test_index base m n = \<lparr>file_index = IndexPath ''d'' base, mmap = m, size_index = n\<rparr>"

definition test_segment :: "uint64 \<Rightarrow> byte list \<Rightarrow> uint64 \<Rightarrow> index \<Rightarrow> uint64 \<Rightarrow> segment" where
  "test_segment base pending ssize idx next =
     \<lparr>store = \<lparr>File = StorePath ''d'' base, buf = \<lparr>wbuf = pending, werr = None\<rparr>,
               size_store = ssize\<rparr>,
      index = idx, baseOffset = base, nextOffset = next, config = test_Config\<rparr>"

definition frame :: "uint64 \<Rightarrow> byte list" where
  "frame off = PutUint64 19 @ PutUint64 off @ hello_world"

text \<open>The offsets of the calls that returned no error, in order.\<close>

fun oks :: "'a result list \<Rightarrow> 'a list" where
  "oks [] = []"
| "oks (Ok x # rs) = x # oks rs"
| "oks (Err e # rs) = oks rs"
| "oks (Panic # rs) = oks rs"

text \<open>A record larger than the store's buffer, and the disk once the store file fails.\<close>

definition big_record :: api_Record where
  "big_record = \<lparr>Value = replicate 5000 7, Offset = 0\<rparr>"

definition store_failing :: "world \<Rightarrow> world" where
  "store_failing w = w\<lparr>faulty := {StorePath ''d'' 16}\<rparr>"

section \<open>Properties of the store\<close>

lemma bufio_Write_taken:
  "bufio_Write f b w p = ((k, None), b', w') \<Longrightarrow> k = length p"
  by (auto simp: bufio_Write_def bufio_Flush_def Let_def
           split: option.splits if_splits sum.splits prod.splits)

lemma store_Append_cases:
  "store_Append s data w = ((n, pos, err), s', w') \<Longrightarrow>
     (err \<noteq> None \<and> n = 0 \<and> pos = 0 \<and> size_store s' = size_store s) \<or>
     (err = None \<and> n = word_of_nat (length data + lenWidth) \<and> pos = size_store s \<and>
      size_store s' = size_store s + n)"
  by (auto simp: store_Append_def Let_def dest: bufio_Write_taken
           split: option.splits prod.splits)

lemmas store_run_defs =
  store_Append_def binary_Write_def bufio_Write_def bufio_Flush_def Available_def bufSize_def
  PutUint64_def file_Write_def Let_def lenWidth_def

text \<open>
  C8. A successful \<open>store.Append\<close> returns, as number of bytes written, 8 plus the
  length of the payload (a \<open>uint64\<close>; it is that number itself whenever the number fits
  64 bits), and as position the size of the store before the call; the size after the call
  is the size before plus the bytes written.
\<close>

theorem store_Append_success:
  assumes "store_Append s data w = ((n, pos, None), s', w')"
  shows "n = word_of_nat (8 + length data) \<and> pos = size_store s \<and>
         size_store s' = size_store s + n \<and>
         (8 + length data < 2 ^ 64 \<longrightarrow> unat n = 8 + length data)"
proof -
  from store_Append_cases [OF assms]
  have n: "n = word_of_nat (length data + lenWidth)"
    and rest: "pos = size_store s" "size_store s' = size_store s + n"
    by auto
  have "n = word_of_nat (8 + length data)"
    using n by (simp add: lenWidth_def add.commute)
  moreover have "8 + length data < 2 ^ 64 \<longrightarrow> unat n = 8 + length data"
  proof
    assume small: "8 + length data < 2 ^ 64"
    have "unat n = (length data + lenWidth) mod 2 ^ 64"
      unfolding n by (simp only: unat_of_nat len_bit0 len_num1) simp
    with small show "unat n = 8 + length data"
      by (simp add: lenWidth_def add.commute)
  qed
  ultimately show ?thesis using rest by simp
qed

theorem store_Append_success_witness:
  "store_Append store27 hello_world failing_disk =
     ((19, 27, None),
      store27\<lparr>buf := \<lparr>wbuf = PutUint64 11 @ hello_world, werr = None\<rparr>, size_store := 46\<rparr>,
      failing_disk) \<and>
   (19 :: uint64) = word_of_nat (8 + length hello_world) \<and>
   unat (19 :: uint64) = 8 + length hello_world"
proof -
  have run: "store_Append store27 hello_world failing_disk =
     ((19, 27, None),
      store27\<lparr>buf := \<lparr>wbuf = PutUint64 11 @ hello_world, werr = None\<rparr>, size_store := 46\<rparr>,
      failing_disk)"
    by (simp add: store27_def failing_disk_def hello_world_def store_run_defs)
  from store_Append_success [OF run] run show ?thesis
    by (simp add: hello_world_def)
qed

text \<open>
  C10. When \<open>store.Append\<close> returns an error, from the write of the length prefix or
  from the write of the payload, the size of the store is what it was before the call.
\<close>

theorem store_Append_error_keeps_size:
  "store_Append s data w = ((n, pos, Some e), s', w') \<Longrightarrow> size_store s' = size_store s"
  by (drule store_Append_cases) auto

text \<open>
  The witness takes both paths: a payload larger than the buffer, whose write reaches the
  failing disk after the prefix was buffered, and a second call on the writer that now
  holds the error, where the prefix is refused.
\<close>

theorem store_Append_error_keeps_size_witness:
  "store_Append store27 (replicate 5000 7) failing_disk =
     ((0, 0, Some IOError),
      store27\<lparr>buf := \<lparr>wbuf = PutUint64 5000 @ replicate 4088 7, werr = Some IOError\<rparr>\<rparr>,
      failing_disk) \<and>
   size_store
     (store27\<lparr>buf := \<lparr>wbuf = PutUint64 5000 @ replicate 4088 7, werr = Some IOError\<rparr>\<rparr>) = 27 \<and>
   store_Append
     (store27\<lparr>buf := \<lparr>wbuf = PutUint64 5000 @ replicate 4088 7, werr = Some IOError\<rparr>\<rparr>)
     hello_world failing_disk =
     ((0, 0, Some IOError),
      store27\<lparr>buf := \<lparr>wbuf = PutUint64 5000 @ replicate 4088 7, werr = Some IOError\<rparr>\<rparr>,
      failing_disk)"
proof -
  let ?s1 = "store27\<lparr>buf := \<lparr>wbuf = PutUint64 5000 @ replicate 4088 7, werr = Some IOError\<rparr>\<rparr>"
  have run1: "store_Append store27 (replicate 5000 7) failing_disk =
      ((0, 0, Some IOError), ?s1, failing_disk)"
    by (simp add: store27_def failing_disk_def store_run_defs)
  have run2: "store_Append ?s1 hello_world failing_disk = ((0, 0, Some IOError), ?s1, failing_disk)"
    by (simp add: store27_def failing_disk_def hello_world_def store_run_defs)
  have "size_store ?s1 = size_store store27"
    by (rule store_Append_error_keeps_size [OF run1])
  moreover have "size_store ?s1 = size_store ?s1"
    by (rule store_Append_error_keeps_size [OF run2])
  ultimately show ?thesis using run1 run2 by (simp add: store27_def)
qed

section \<open>Properties of the index\<close>

lemma length_PutUint32 [simp]: "length (PutUint32 v) = 4"
  by (simp add: PutUint32_def)

lemma length_PutUint64 [simp]: "length (PutUint64 v) = 8"
  by (simp add: PutUint64_def)

lemma unat_entryWidth [simp]: "unat entryWidth = 12"
  by (simp add: entryWidth_def offWidth_def posWidth_def)

lemma unat_offWidth [simp]: "unat offWidth = 4"
  by (simp add: offWidth_def)

lemma put_slice_fits:
  "lo + length bs \<le> hi \<Longrightarrow> hi \<le> length a \<Longrightarrow>
   put_slice a lo hi bs = Ok (take lo a @ bs @ drop (lo + length bs) a)"
  by (simp add: put_slice_def slice_def)

lemma entry_bytes:
  assumes "n + 12 \<le> length a" "length b4 = 4" "length b8 = 8"
  shows "take (n + 4) (take n a @ b4 @ drop (n + 4) a) @ b8 @
           drop (n + 4 + 8) (take n a @ b4 @ drop (n + 4) a) =
         take n a @ b4 @ b8 @ drop (n + 12) a"
  using assms by (simp add: min_def add.commute)

text \<open>
  What \<open>index.Write\<close> does, for a mapped region and a size whose sum with the entry
  width stays below \<open>2 ^ 64\<close> (sizes of files are below \<open>2 ^ 63\<close>).
\<close>

lemma index_Write_eq:
  assumes len: "length (mmap idx) < 2 ^ 64"
    and nowrap: "unat (size_index idx) + 12 < 2 ^ 64"
  shows "index_Write idx off pos =
     (if length (mmap idx) < unat (size_index idx) + 12 then (Err EOF, idx)
      else (Ok (),
            idx\<lparr>mmap := take (unat (size_index idx)) (mmap idx) @ PutUint32 off @ PutUint64 pos @
                          drop (unat (size_index idx) + 12) (mmap idx),
                size_index := size_index idx + entryWidth\<rparr>))"
proof -
  let ?n = "unat (size_index idx)"
  let ?m = "mmap idx"
  have u12: "unat (size_index idx + entryWidth) = ?n + 12"
    using nowrap unat_add_lem [of "size_index idx" entryWidth] by simp
  have u4: "unat (size_index idx + offWidth) = ?n + 4"
    using nowrap unat_add_lem [of "size_index idx" offWidth] by simp
  have ulen: "unat (word_of_nat (length ?m) :: uint64) = length ?m"
    using len by (simp add: unat_of_nat)
  have check: "(word_of_nat (length ?m) < size_index idx + entryWidth) \<longleftrightarrow> length ?m < ?n + 12"
    by (simp add: word_less_nat_alt u12 ulen)
  show ?thesis
  proof (cases "length ?m < ?n + 12")
    case True
    then show ?thesis by (simp add: index_Write_def check)
  next
    case False
    then have fits: "?n + 12 \<le> length ?m" by simp
    have p1: "put_slice ?m ?n (?n + 4) (PutUint32 off) =
        Ok (take ?n ?m @ PutUint32 off @ drop (?n + 4) ?m)"
      using fits by (simp add: put_slice_fits)
    have p2: "put_slice (take ?n ?m @ PutUint32 off @ drop (?n + 4) ?m) (?n + 4) (?n + 12)
          (PutUint64 pos) =
        Ok (take ?n ?m @ PutUint32 off @ PutUint64 pos @ drop (?n + 12) ?m)"
      using fits entry_bytes [of ?n ?m "PutUint32 off" "PutUint64 pos"]
      by (simp add: put_slice_fits)
    show ?thesis
      using False by (simp add: index_Write_def check u4 u12 p1 p2)
  qed
qed

text \<open>
  C7. \<open>index.Write(offset, position)\<close> returns \<open>io.EOF\<close>, and changes nothing, exactly
  when the size plus the entry width exceeds the length of the mapped region. Otherwise it
  returns no error, the mapped region holds the four big-endian bytes of the offset and then
  the eight of the position at \<open>[size, size + 12)\<close> with every other byte as before, and the
  size has grown by the entry width.
\<close>

theorem index_Write_spec:
  assumes "length (mmap idx) < 2 ^ 64"
    and "unat (size_index idx) + 12 < 2 ^ 64"
  shows "(fst (index_Write idx off pos) = Err EOF \<longleftrightarrow>
            length (mmap idx) < unat (size_index idx) + unat entryWidth) \<and>
         index_Write idx off pos =
           (if length (mmap idx) < unat (size_index idx) + unat entryWidth then (Err EOF, idx)
            else (Ok (),
                  idx\<lparr>mmap := take (unat (size_index idx)) (mmap idx) @
                                PutUint32 off @ PutUint64 pos @
                                drop (unat (size_index idx) + unat entryWidth) (mmap idx),
                      size_index := size_index idx + entryWidth\<rparr>))"
  using index_Write_eq [OF assms, of off pos] by simp

theorem index_Write_spec_witness:
  "index_Write index_two_entries 2 54 = (Ok (), index_three_entries) \<and>
   index_Write index_three_entries 3 81 = (Err EOF, index_three_entries)"
proof -
  have a: "length (mmap index_two_entries) < 2 ^ 64"
      "unat (size_index index_two_entries) + 12 < 2 ^ 64"
    by (simp_all add: index_two_entries_def)
  have b: "length (mmap index_three_entries) < 2 ^ 64"
      "unat (size_index index_three_entries) + 12 < 2 ^ 64"
    by (simp_all add: index_three_entries_def)
  show ?thesis
    using index_Write_spec [OF a, of 2 54] index_Write_spec [OF b, of 3 81]
    by (simp add: index_two_entries_def index_three_entries_def PutUint32_def PutUint64_def
          entryWidth_def offWidth_def posWidth_def)
qed

text \<open>
  \<open>index.Read\<close> takes the offset field from \<open>idx.mmap[entryStart:offWidth]\<close>, a slice
  that ends at byte 4 wherever the entry starts. An entry after the first starts at byte 12
  or later, so the slice expression panics; the entry at 0 is read.
\<close>

lemma unat_ucast_32_64: "unat (ucast (u :: uint32) :: uint64) = unat u"
proof -
  have "unat u < 2 ^ 32"
    using unsigned_less [of u, where 'a = nat] by simp
  then have "unat u < 2 ^ 64"
    by (rule less_le_trans) simp
  then show ?thesis
    by (simp add: unsigned_ucast_eq take_bit_nat_eq_self)
qed

lemma unat_ucast_64_32: "unat (ucast (g :: uint64) :: uint32) = unat g mod 2 ^ 32"
  by (simp add: unsigned_ucast_eq take_bit_eq_mod)

lemma unat_entry_start:
  fixes u :: uint32
  shows "unat ((ucast u :: uint64) * entryWidth) = unat u * 12"
proof -
  have "unat u < 2 ^ 32"
    using unsigned_less [of u, where 'a = nat] by simp
  then have "unat (ucast u :: uint64) * unat entryWidth < 2 ^ 64"
    by (simp add: unat_ucast_32_64)
  then show ?thesis
    using unat_mult_lem [of "ucast u :: uint64" entryWidth] by (simp add: unat_ucast_32_64)
qed

lemma unat_entry_end:
  fixes u :: uint32
  shows "unat ((ucast u :: uint64) * entryWidth + entryWidth) = unat u * 12 + 12"
proof -
  have "unat u < 2 ^ 32"
    using unsigned_less [of u, where 'a = nat] by simp
  then have "unat ((ucast u :: uint64) * entryWidth) + unat entryWidth < 2 ^ 64"
    by (simp add: unat_entry_start)
  then show ?thesis
    using unat_add_lem [of "(ucast u :: uint64) * entryWidth" entryWidth]
    by (simp add: unat_entry_start)
qed

lemma index_Read_after_first_panics:
  fixes u :: uint32
  assumes "g \<noteq> - 1"
    and "u = ucast g"
    and "u \<noteq> 0"
    and "12 * unat u + 12 \<le> unat (size_index idx)"
  shows "index_Read idx g = Panic"
proof -
  have upos: "0 < unat u"
    using assms(3) by (simp add: unat_gt_0)
  have nonempty: "size_index idx \<noteq> 0"
    using assms(4) by (auto simp flip: unat_0_iff)
  have written: "\<not> size_index idx < (ucast u :: uint64) * entryWidth + entryWidth"
    using assms(4) by (simp add: word_less_nat_alt unat_entry_end)
  have "slice (mmap idx) (unat ((ucast u :: uint64) * entryWidth)) (unat offWidth) = Panic"
    using upos by (simp add: slice_def unat_entry_start)
  then show ?thesis
    using assms(1) nonempty written unfolding assms(2)
    by (simp add: index_Read_def Let_def)
qed

text \<open>
  \<open>Read(-1)\<close> on an index of two entries or more (below \<open>2 ^ 32\<close> bytes) resolves to an
  entry after the first, and panics as well.
\<close>

lemma index_Read_last_panics:
  assumes two: "24 \<le> unat (size_index idx)"
    and small: "unat (size_index idx) < 2 ^ 32"
  shows "index_Read idx (- 1) = Panic"
proof -
  let ?q = "(ucast (size_index idx) :: uint32) div ucast entryWidth"
  let ?u = "?q - 1"
  have cast: "unat (ucast (size_index idx) :: uint32) = unat (size_index idx)"
    using small by (simp add: unat_ucast_64_32)
  have w12: "unat (ucast entryWidth :: uint32) = 12"
    by (simp add: entryWidth_def offWidth_def posWidth_def)
  have q: "unat ?q = unat (size_index idx) div 12"
    by (simp add: unat_div cast w12)
  then have qpos: "2 \<le> unat ?q"
    using two by simp
  then have "?q \<noteq> 0"
    by (auto simp flip: unat_0_iff)
  then have u: "unat ?u = unat ?q - 1"
    by (rule unat_minus_one)
  have upos: "0 < unat ?u"
    using u qpos by simp
  have "unat ?u * 12 + 12 = unat ?q * 12"
    using u qpos by simp
  also have "\<dots> \<le> unat (size_index idx)"
    using q by simp
  finally have written: "\<not> size_index idx < (ucast ?u :: uint64) * entryWidth + entryWidth"
    by (simp add: word_less_nat_alt unat_entry_end)
  have nonempty: "size_index idx \<noteq> 0"
    using two by (auto simp flip: unat_0_iff)
  have "slice (mmap idx) (unat ((ucast ?u :: uint64) * entryWidth)) (unat offWidth) = Panic"
    using upos by (simp add: slice_def unat_entry_start)
  then show ?thesis
    using nonempty written by (simp add: index_Read_def Let_def)
qed

lemma index_Read_first_entry:
  assumes "12 \<le> unat (size_index idx)" and "12 \<le> length (mmap idx)"
  shows "\<exists>a b. index_Read idx 0 = Ok (a, b) \<and>
               Uint32 (take 4 (mmap idx)) = Ok a \<and>
               Uint64 (take 8 (drop 4 (mmap idx))) = Ok b"
proof -
  have "size_index idx \<noteq> 0"
    using assms(1) by (auto simp flip: unat_0_iff)
  moreover have "\<not> size_index idx < entryWidth"
    using assms(1) by (simp add: word_less_nat_alt)
  ultimately show ?thesis
    using assms(2)
    by (simp add: index_Read_def slice_def Uint32_def Uint64_def Let_def)
qed

text \<open>
  C3. On the index of the test after two appends (size 24, both entries written),
  \<open>Read(1)\<close> panics, and so does \<open>Read(-1)\<close>, which resolves to entry 1; \<open>Read(0)\<close>
  returns the first entry.
\<close>

theorem index_Read_second_entry:
  "index_Read index_two_entries 1 = Panic \<and>
   index_Read index_two_entries (- 1) = Panic \<and>
   index_Read index_two_entries 0 = Ok (0, 0)"
  by (simp add: index_two_entries_def index_Read_def slice_def Uint32_def Uint64_def Let_def
        entryWidth_def offWidth_def posWidth_def)

section \<open>Properties of the segment\<close>

subsection \<open>The test's run, step by step\<close>

lemmas os_defs = os_OpenFile_def os_Stat_def os_Truncate_def gommap_Map_def gommap_Sync_def
  file_Sync_def file_Close_def file_ReadAt_def os_Remove_def

lemmas index_run_defs = index_Write_def put_slice_def slice_def PutUint32_def
  entryWidth_def offWidth_def posWidth_def

lemmas test_defs = test_segment_def test_index_def test_disk_def test_Config_def zeros36_def
  frame_def want_def hello_world_def

lemma replicate_36: "replicate 36 (0 :: byte) = zeros36"
  by (simp add: zeros36_def eval_nat_numeral)

lemma run_newSegment:
  "newSegment ''d'' B test_Config empty_dir =
     (Ok (test_segment B [] 0 (test_index B zeros36 0) B), test_disk B [] zeros36)"
  by (simp add: newSegment_def newStore_def newIndex_def os_defs empty_dir_def index_Read_def
        bufio_NewWriter_def replicate_36 test_defs)

lemma run_Append_first:
  "segment_Append plain_Marshal (test_segment B [] 0 (test_index B zeros36 0) B) want
       (test_disk B [] zeros36) =
     (Ok B, test_segment B (frame B) 27 (test_index B zeros36 12) (B + 1),
      test_disk B [] zeros36)"
  by (simp add: segment_Append_def plain_Marshal_def store_run_defs index_run_defs test_defs)

lemma run_Append_second:
  "segment_Append plain_Marshal (test_segment 16 (frame 16) 27 (test_index 16 zeros36 12) 17) want
       (test_disk 16 [] zeros36) =
     (Ok 17, test_segment 16 (frame 16 @ frame 17) 54 index_two_entries 18,
      test_disk 16 [] zeros36)"
  by (simp add: segment_Append_def plain_Marshal_def store_run_defs index_run_defs test_defs
        index_two_entries_def)

lemma run_Append_third:
  "segment_Append plain_Marshal (test_segment 16 (frame 16 @ frame 17) 54 index_two_entries 18)
       want (test_disk 16 [] zeros36) =
     (Ok 18, test_segment 16 (frame 16 @ frame 17 @ frame 18) 81 index_three_entries 19,
      test_disk 16 [] zeros36)"
  by (simp add: segment_Append_def plain_Marshal_def store_run_defs index_run_defs test_defs
        index_two_entries_def index_three_entries_def)

subsection \<open>The offsets a segment assigns\<close>

lemma segment_Append_step:
  assumes "segment_Append m s r w = (res, s', w')"
  shows "baseOffset s' = baseOffset s \<and>
         (case res of
            Ok off \<Rightarrow> off = nextOffset s \<and> nextOffset s' = nextOffset s + 1
          | Err e \<Rightarrow> nextOffset s' = nextOffset s
          | Panic \<Rightarrow> nextOffset s' = nextOffset s)"
  using assms
  by (auto simp: segment_Append_def Let_def split: result.splits prod.splits)

lemma appends_offsets:
  "appends m s rs w = (ress, s', w') \<Longrightarrow>
     baseOffset s' = baseOffset s \<and>
     nextOffset s' = nextOffset s + word_of_nat (length (oks ress)) \<and>
     oks ress = map (\<lambda>i. nextOffset s + word_of_nat i) [0..<length (oks ress)]"
proof (induction rs arbitrary: s w ress s' w')
  case Nil
  then show ?case by simp
next
  case (Cons r rs)
  obtain res s1 w1 where step: "segment_Append m s r w = (res, s1, w1)"
    by (cases "segment_Append m s r w") auto
  obtain ress1 where rest: "appends m s1 rs w1 = (ress1, s', w')" and ress: "ress = res # ress1"
    using Cons.prems step by (auto split: prod.splits)
  note ih = Cons.IH [OF rest]
  note st = segment_Append_step [OF step]
  show ?case
  proof (cases res)
    case (Ok off)
    have shift: "map (\<lambda>i. nextOffset s + 1 + word_of_nat i) [0..<n] =
                 map (\<lambda>i. nextOffset s + word_of_nat i) [Suc 0..<Suc n]" for n
      by (induction n) (simp_all add: add.assoc)
    show ?thesis
      using ih st Ok ress shift [of "length (oks ress1)"]
      by (simp add: upt_conv_Cons add.assoc del: upt_Suc)
  next
    case (Err e)
    then show ?thesis using ih st ress by simp
  next
    case Panic
    then show ?thesis using ih st ress by simp
  qed
qed

lemma length_appends:
  "appends m s rs w = (ress, s', w') \<Longrightarrow> length ress = length rs"
  by (induction rs arbitrary: s w ress s' w') (auto split: prod.splits)

lemma length_oks: "length (oks rs) \<le> length rs"
  by (induction rs rule: oks.induct) auto

lemma newSegment_fresh:
  assumes "files w (IndexPath dir B) = None \<or> files w (IndexPath dir B) = Some []"
    and "newSegment dir B c w = (Ok s, w1)"
  shows "baseOffset s = B \<and> nextOffset s = B \<and> size_index (index s) = 0"
  using assms
  by (auto simp: newSegment_def newIndex_def os_defs index_Read_def
           split: sum.splits result.splits prod.splits option.splits if_splits)

lemma newSegment_offsets:
  assumes "newSegment dir B c w = (Ok s, w1)"
  shows "baseOffset s = B \<and>
         (nextOffset s = B \<or> (\<exists>off :: uint32. nextOffset s = B + ucast off + 1))"
  using assms
  by (auto simp: newSegment_def split: sum.splits result.splits prod.splits)

text \<open>
  C6. On a segment that \<open>newSegment\<close> made at base offset \<open>B\<close> where no index file,
  or an empty one, was on disk, the successful ones of any run of \<open>Append\<close> calls return
  \<open>B\<close>, \<open>B + 1\<close>, ... in order (in \<open>uint64\<close>): the n-th returns \<open>B + (n - 1)\<close>.
\<close>

theorem fresh_segment_offsets:
  assumes "files w (IndexPath dir B) = None \<or> files w (IndexPath dir B) = Some []"
    and "newSegment dir B c w = (Ok s, w1)"
    and "appends m s rs w1 = (ress, s', w')"
  shows "oks ress = map (\<lambda>i. B + word_of_nat i) [0..<length (oks ress)] \<and>
         (\<forall>n. 0 < n \<and> n \<le> length (oks ress) \<longrightarrow>
              oks ress ! (n - 1) = B + word_of_nat (n - 1))"
proof -
  have B: "nextOffset s = B"
    using newSegment_fresh [OF assms(1,2)] by simp
  have eq: "oks ress = map (\<lambda>i. B + word_of_nat i) [0..<length (oks ress)]"
    using appends_offsets [OF assms(3)] B by simp
  have "oks ress ! (n - 1) = B + word_of_nat (n - 1)" if "0 < n" "n \<le> length (oks ress)" for n
  proof -
    have "n - 1 < length (oks ress)" using that by simp
    then have "map (\<lambda>i. B + word_of_nat i) [0..<length (oks ress)] ! (n - 1) =
               B + word_of_nat (n - 1)"
      by simp
    then show ?thesis using eq by simp
  qed
  then show ?thesis using eq by blast
qed

text \<open>The example of the specification: base offset 16, three appends, offsets 16, 17, 18.\<close>

theorem fresh_segment_offsets_witness:
  "files empty_dir (IndexPath ''d'' 16) = None \<and>
   newSegment ''d'' 16 test_Config empty_dir =
     (Ok (test_segment 16 [] 0 (test_index 16 zeros36 0) 16), test_disk 16 [] zeros36) \<and>
   appends plain_Marshal (test_segment 16 [] 0 (test_index 16 zeros36 0) 16) [want, want, want]
       (test_disk 16 [] zeros36) =
     ([Ok 16, Ok 17, Ok 18],
      test_segment 16 (frame 16 @ frame 17 @ frame 18) 81 index_three_entries 19,
      test_disk 16 [] zeros36) \<and>
   oks [Ok 16, Ok 17, Ok 18 :: uint64 result] = [16, 17, 18] \<and>
   oks [Ok 16, Ok 17, Ok 18 :: uint64 result] ! (3 - 1) = 16 + word_of_nat (3 - 1)"
proof -
  have fresh: "files empty_dir (IndexPath ''d'' 16) = None \<or>
               files empty_dir (IndexPath ''d'' 16) = Some []"
    by (simp add: empty_dir_def)
  have run: "appends plain_Marshal (test_segment 16 [] 0 (test_index 16 zeros36 0) 16)
       [want, want, want] (test_disk 16 [] zeros36) =
     ([Ok 16, Ok 17, Ok 18],
      test_segment 16 (frame 16 @ frame 17 @ frame 18) 81 index_three_entries 19,
      test_disk 16 [] zeros36)"
    using run_Append_first [of 16] by (simp add: run_Append_second run_Append_third)
  from fresh_segment_offsets [OF fresh run_newSegment run]
  have "oks [Ok 16, Ok 17, Ok 18 :: uint64 result] ! (3 - 1) = 16 + word_of_nat (3 - 1)"
    by simp
  then show ?thesis
    using run run_newSegment [of 16] by (simp add: empty_dir_def)
qed

subsection \<open>The next offset against the base offset\<close>

lemma unat_add_le: "unat (a + b) \<le> unat a + unat b"
  for a b :: "'a::len word"
  by (simp add: unat_word_ariths)

lemma unat_of_nat_le: "unat (word_of_nat n :: 'a::len word) \<le> n"
  by (simp add: unat_of_nat)

lemma unat_resume_le: "unat ((ucast (off :: uint32) :: uint64) + 1) \<le> 2 ^ 32"
proof -
  have "unat off < 2 ^ 32"
    using unsigned_less [of off, where 'a = nat] by simp
  then have "unat (ucast off :: uint64) + unat (1 :: uint64) \<le> 2 ^ 32"
    by (simp add: unat_ucast_32_64)
  then show ?thesis
    using unat_add_le [of "ucast off :: uint64" 1] by linarith
qed

text \<open>
  C9, as the code has it. \<open>nextOffset\<close> is a \<open>uint64\<close> that \<open>newSegment\<close> sets to
  \<open>baseOffset\<close> or to \<open>baseOffset + off + 1\<close> for a 32-bit \<open>off\<close> and that each
  successful \<open>Append\<close> increments, so \<open>baseOffset \<le> nextOffset\<close> holds after
  \<open>newSegment\<close> and after every run of \<open>Append\<close> calls as long as the counter cannot
  pass \<open>2 ^ 64\<close>: when \<open>baseOffset + 2 ^ 32\<close> plus the number of calls is below \<open>2 ^ 64\<close>.
\<close>

theorem nextOffset_ge_baseOffset:
  assumes new: "newSegment dir B c w = (Ok s, w1)"
    and run: "appends m s rs w1 = (ress, s', w')"
    and room: "unat B + 2 ^ 32 + length rs < 2 ^ 64"
  shows "baseOffset s \<le> nextOffset s \<and> baseOffset s' \<le> nextOffset s'"
proof -
  from newSegment_offsets [OF new] obtain k :: uint64
    where base: "baseOffset s = B" and k: "nextOffset s = B + k" "unat k \<le> 2 ^ 32"
    using unat_resume_le by (auto simp: add.assoc)
  from appends_offsets [OF run]
  have base': "baseOffset s' = B"
    and next': "nextOffset s' = B + (k + word_of_nat (length (oks ress)))"
    using base k by (simp_all add: add.assoc)
  have "length (oks ress) \<le> length rs"
    using length_oks [of ress] length_appends [OF run] by simp
  then have "unat (k + word_of_nat (length (oks ress)) :: uint64) \<le> 2 ^ 32 + length rs"
    using unat_add_le [of k "word_of_nat (length (oks ress))"]
      unat_of_nat_le [of "length (oks ress)", where 'a = 64] k(2)
    by linarith
  then have "unat B + unat (k + word_of_nat (length (oks ress)) :: uint64) < 2 ^ 64"
    using room by simp
  then have late: "B \<le> B + (k + word_of_nat (length (oks ress)))"
    by (simp add: no_olen_add_nat)
  have "unat B + unat k < 2 ^ 64"
    using room k(2) by simp
  then have early: "B \<le> B + k"
    by (simp add: no_olen_add_nat)
  show ?thesis
    using early late base base' k(1) next' by simp
qed

theorem nextOffset_ge_baseOffset_witness:
  "newSegment ''d'' 16 test_Config empty_dir =
     (Ok (test_segment 16 [] 0 (test_index 16 zeros36 0) 16), test_disk 16 [] zeros36) \<and>
   appends plain_Marshal (test_segment 16 [] 0 (test_index 16 zeros36 0) 16) [want]
       (test_disk 16 [] zeros36) =
     ([Ok 16], test_segment 16 (frame 16) 27 (test_index 16 zeros36 12) 17,
      test_disk 16 [] zeros36) \<and>
   unat (16 :: uint64) + 2 ^ 32 + length [want] < 2 ^ 64 \<and>
   baseOffset (test_segment 16 (frame 16) 27 (test_index 16 zeros36 12) 17) \<le>
     nextOffset (test_segment 16 (frame 16) 27 (test_index 16 zeros36 12) 17)"
proof -
  have run: "appends plain_Marshal (test_segment 16 [] 0 (test_index 16 zeros36 0) 16) [want]
       (test_disk 16 [] zeros36) =
     ([Ok 16], test_segment 16 (frame 16) 27 (test_index 16 zeros36 12) 17,
      test_disk 16 [] zeros36)"
    using run_Append_first [of 16] by simp
  have room: "unat (16 :: uint64) + 2 ^ 32 + length [want] < 2 ^ 64"
    by simp
  from nextOffset_ge_baseOffset [OF run_newSegment run room] run run_newSegment [of 16] room
  show ?thesis by simp
qed

text \<open>
  C9, as stated, fails where the counter wraps: a segment made at base offset
  \<open>2 ^ 64 - 1\<close> has \<open>nextOffset = 0\<close> after its first \<open>Append\<close>.
\<close>

theorem nextOffset_wraps_below_baseOffset:
  "newSegment ''d'' (- 1) test_Config empty_dir =
     (Ok (test_segment (- 1) [] 0 (test_index (- 1) zeros36 0) (- 1)), test_disk (- 1) [] zeros36) \<and>
   segment_Append plain_Marshal (test_segment (- 1) [] 0 (test_index (- 1) zeros36 0) (- 1)) want
       (test_disk (- 1) [] zeros36) =
     (Ok (- 1), test_segment (- 1) (frame (- 1)) 27 (test_index (- 1) zeros36 12) 0,
      test_disk (- 1) [] zeros36) \<and>
   \<not> baseOffset (test_segment (- 1) (frame (- 1)) 27 (test_index (- 1) zeros36 12) 0) \<le>
       nextOffset (test_segment (- 1) (frame (- 1)) 27 (test_index (- 1) zeros36 12) 0)"
  using run_newSegment [of "- 1"] run_Append_first [of "- 1"]
  by (simp add: test_segment_def)

subsection \<open>Errors of the two writes\<close>

text \<open>
  \<open>segment.Append\<close> checks the error of \<open>index.Write\<close> and returns it. The error of
  \<open>store.Append\<close> is never checked: when the store fails and the index has room, the
  entry is written with position 0 and the offset is returned with a nil error.
\<close>

lemma segment_Append_reports_index_error:
  assumes "proto_Marshal (r\<lparr>Offset := nextOffset s\<rparr>) = Ok p"
    and "store_Append (store s) p w = ((n, pos, err), st, w1)"
    and "fst (index_Write (index s) (ucast (nextOffset s - baseOffset s)) pos) = Err e"
  shows "fst (segment_Append proto_Marshal s r w) = Err e"
  using assms by (auto simp: segment_Append_def Let_def split: prod.splits result.splits)

lemma segment_Append_drops_store_error:
  assumes "proto_Marshal (r\<lparr>Offset := nextOffset s\<rparr>) = Ok p"
    and "store_Append (store s) p w = ((n, pos, Some e), st, w1)"
    and "fst (index_Write (index s) (ucast (nextOffset s - baseOffset s)) 0) = Ok ()"
  shows "fst (segment_Append proto_Marshal s r w) = Ok (nextOffset s)"
proof -
  have "pos = 0"
    using store_Append_cases [OF assms(2)] by simp
  then show ?thesis
    using assms by (auto simp: segment_Append_def Let_def split: prod.splits result.splits)
qed

text \<open>
  C4. On the fresh segment of the test, with the store file failing and a record of 5000
  bytes (more than the buffer holds), \<open>store.Append\<close> returns \<open>(0, 0, err)\<close> and
  \<open>segment.Append\<close> returns offset 16 and no error.
\<close>

theorem segment_Append_hides_store_error:
  "fst (store_Append (store (test_segment 16 [] 0 (test_index 16 zeros36 0) 16))
          (PutUint64 16 @ replicate 5000 7) (store_failing (test_disk 16 [] zeros36))) =
     (0, 0, Some IOError) \<and>
   fst (segment_Append plain_Marshal (test_segment 16 [] 0 (test_index 16 zeros36 0) 16) big_record
          (store_failing (test_disk 16 [] zeros36))) = Ok 16"
  by (simp add: segment_Append_def plain_Marshal_def store_run_defs index_run_defs test_defs
        big_record_def store_failing_def)

subsection \<open>Reading back\<close>

lemmas read_run_defs = segment_Read_def index_Read_def store_Read_def slice_def Uint32_def
  Uint64_def plain_Unmarshal_def maxAlloc_def bufio_Flush_def file_Write_def file_ReadAt_def
  lenWidth_def PutUint64_def entryWidth_def offWidth_def posWidth_def Let_def

text \<open>
  C1. The run of the package's own test: on the segment at base offset 16, after two
  appends of \<open>"hello world"\<close> that returned 16 and 17, \<open>Read(17)\<close> panics in the index;
  \<open>Read(16)\<close> returns the payload.
\<close>

theorem segment_Read_second_record_panics:
  "appends plain_Marshal (test_segment 16 [] 0 (test_index 16 zeros36 0) 16) [want, want]
       (test_disk 16 [] zeros36) =
     ([Ok 16, Ok 17], test_segment 16 (frame 16 @ frame 17) 54 index_two_entries 18,
      test_disk 16 [] zeros36) \<and>
   fst (segment_Read plain_Unmarshal
          (test_segment 16 (frame 16 @ frame 17) 54 index_two_entries 18) 17
          (test_disk 16 [] zeros36)) = Panic \<and>
   fst (segment_Read plain_Unmarshal
          (test_segment 16 (frame 16 @ frame 17) 54 index_two_entries 18) 16
          (test_disk 16 [] zeros36)) = Ok \<lparr>Value = hello_world, Offset = 16\<rparr>"
proof -
  have "appends plain_Marshal (test_segment 16 [] 0 (test_index 16 zeros36 0) 16) [want, want]
       (test_disk 16 [] zeros36) =
     ([Ok 16, Ok 17], test_segment 16 (frame 16 @ frame 17) 54 index_two_entries 18,
      test_disk 16 [] zeros36)"
    using run_Append_first [of 16] by (simp add: run_Append_second)
  moreover have "fst (segment_Read plain_Unmarshal
          (test_segment 16 (frame 16 @ frame 17) 54 index_two_entries 18) 17
          (test_disk 16 [] zeros36)) = Panic"
    by (simp add: read_run_defs test_defs index_two_entries_def)
  moreover have "fst (segment_Read plain_Unmarshal
          (test_segment 16 (frame 16 @ frame 17) 54 index_two_entries 18) 16
          (test_disk 16 [] zeros36)) = Ok \<lparr>Value = hello_world, Offset = 16\<rparr>"
    by (simp add: read_run_defs test_defs index_two_entries_def)
  ultimately show ?thesis by simp
qed

subsection \<open>Offsets outside the segment\<close>

lemma wrap_low_bits:
  fixes d :: nat
  assumes "0 < d" "d \<le> 2 ^ 32"
  shows "(2 ^ 64 - d) mod 2 ^ 32 = (2 ^ 32 - d) mod (2 ^ 32 :: nat)"
proof -
  have "(2 ^ 64 - d) = (2 ^ 32 - d) + (2 ^ 32 - 1) * (2 ^ 32 :: nat)"
    using assms by simp
  then have "(2 ^ 64 - d) mod 2 ^ 32 = ((2 ^ 32 - d) + (2 ^ 32 - 1) * (2 ^ 32 :: nat)) mod 2 ^ 32"
    by (rule arg_cong)
  also have "\<dots> = (2 ^ 32 - d) mod (2 ^ 32 :: nat)"
    by (rule mod_mult_self1)
  finally show ?thesis .
qed

lemma unat_minus_1_64: "unat (- 1 :: uint64) = 2 ^ 64 - 1"
  by (simp add: unsigned_minus_1_eq_mask mask_eq_exp_minus_1)

text \<open>
  \<open>index.Read\<close> returns \<open>io.EOF\<close> on an empty index, and for an argument other than
  \<open>-1\<close> whose low 32 bits name an entry that is not written in full.
\<close>

lemma index_Read_EOF:
  assumes "size_index idx = 0 \<or>
           (g \<noteq> - 1 \<and> unat (size_index idx) < 12 * unat (ucast g :: uint32) + 12)"
  shows "index_Read idx g = Err EOF"
proof (cases "size_index idx = 0")
  case True
  then show ?thesis by (simp add: index_Read_def)
next
  case False
  with assms have g: "g \<noteq> - 1"
    and short: "unat (size_index idx) < 12 * unat (ucast g :: uint32) + 12"
    by auto
  have "size_index idx < (ucast (ucast g :: uint32) :: uint64) * entryWidth + entryWidth"
    using short unat_entry_end [of "ucast g :: uint32"]
    by (simp only: word_less_nat_alt)
  then show ?thesis
    using g False by (simp add: index_Read_def Let_def)
qed

text \<open>
  A successful \<open>Append\<close> adds one entry to the index and one to \<open>nextOffset\<close>, a failed
  one neither: a segment made where no index was on disk keeps exactly the entries of
  \<open>[baseOffset, nextOffset)\<close> in its index.
\<close>

lemma index_Write_Ok_size:
  assumes "index_Write idx off pos = (Ok (), idx')"
  shows "unat (size_index idx') = unat (size_index idx) + 12"
proof -
  let ?n = "size_index idx"
  from assms obtain m1 where
    p1: "put_slice (mmap idx) (unat ?n) (unat (?n + offWidth)) (PutUint32 off) = Ok m1"
    and p2: "\<exists>m2. put_slice m1 (unat (?n + offWidth)) (unat (?n + entryWidth))
                    (PutUint64 pos) = Ok m2"
    and sz: "size_index idx' = ?n + entryWidth"
    by (auto simp: index_Write_def split: if_splits result.splits)
  from p1 have a: "unat ?n + 4 \<le> unat (?n + offWidth)"
    by (auto simp: put_slice_def slice_def split: if_splits)
  from p2 have b: "unat (?n + offWidth) + 8 \<le> unat (?n + entryWidth)"
    by (auto simp: put_slice_def slice_def split: if_splits)
  have "unat (?n + entryWidth) \<le> unat ?n + 12"
    using unat_add_le [of ?n entryWidth] by simp
  with a b show ?thesis by (simp add: sz)
qed

lemma index_Write_failed_size:
  assumes "index_Write idx off pos = (r, idx')" and "r \<noteq> Ok ()"
  shows "size_index idx' = size_index idx"
  using assms by (auto simp: index_Write_def split: if_splits result.splits)

lemma segment_Append_entries:
  assumes step: "segment_Append m s r w = (res, s', w')"
    and inv: "unat (size_index (index s)) = 12 * unat (nextOffset s - baseOffset s)"
  shows "unat (size_index (index s')) = 12 * unat (nextOffset s' - baseOffset s')"
proof (cases "\<exists>off. res = Ok off")
  case True
  then obtain pos where
    wr: "index_Write (index s) (ucast (nextOffset s - baseOffset s)) pos = (Ok (), index s')"
    and nx: "nextOffset s' = nextOffset s + 1" "baseOffset s' = baseOffset s"
    using step
    by (auto simp: segment_Append_def Let_def split: result.splits prod.splits)
  let ?x = "nextOffset s - baseOffset s"
  have grow: "unat (size_index (index s')) = 12 * unat ?x + 12"
    using index_Write_Ok_size [OF wr] inv by simp
  have "unat (size_index (index s')) < 2 ^ 64"
    using unsigned_less [of "size_index (index s')", where 'a = nat] by simp
  then have "unat ?x + unat (1 :: uint64) < 2 ^ 64"
    using grow by simp
  then have "unat (?x + 1) = unat ?x + 1"
    using unat_add_lem [of ?x 1] by simp
  moreover have "nextOffset s' - baseOffset s' = ?x + 1"
    using nx by simp
  ultimately show ?thesis using grow by simp
next
  case False
  then have "size_index (index s') = size_index (index s) \<and>
             nextOffset s' = nextOffset s \<and> baseOffset s' = baseOffset s"
    using step
    by (auto simp: segment_Append_def Let_def dest: index_Write_failed_size
             split: result.splits prod.splits)
  then show ?thesis using inv by simp
qed

lemma appends_entries:
  "appends m s rs w = (ress, s', w') \<Longrightarrow>
   unat (size_index (index s)) = 12 * unat (nextOffset s - baseOffset s) \<Longrightarrow>
   unat (size_index (index s')) = 12 * unat (nextOffset s' - baseOffset s')"
proof (induction rs arbitrary: s w ress)
  case Nil
  then show ?case by simp
next
  case (Cons r rs)
  obtain res s1 w1 where step: "segment_Append m s r w = (res, s1, w1)"
    by (cases "segment_Append m s r w") auto
  obtain ress1 where rest: "appends m s1 rs w1 = (ress1, s', w')"
    using Cons.prems(1) step by (auto split: prod.splits)
  show ?case
    using Cons.IH [OF rest segment_Append_entries [OF step Cons.prems(2)]] .
qed

lemma fresh_segment_entries:
  assumes "files w (IndexPath dir B) = None \<or> files w (IndexPath dir B) = Some []"
    and "newSegment dir B c w = (Ok s, w1)"
    and "appends m s rs w1 = (ress, s', w')"
  shows "unat (size_index (index s')) = 12 * unat (nextOffset s' - baseOffset s')"
proof -
  have "unat (size_index (index s)) = 12 * unat (nextOffset s - baseOffset s)"
    using newSegment_fresh [OF assms(1,2)] by simp
  then show ?thesis
    by (rule appends_entries [OF assms(3)])
qed

text \<open>
  C2, as the code has it. \<open>segment.Read\<close> hands \<open>int64(offset - baseOffset)\<close> to the
  index, which takes \<open>-1\<close> for its last entry and keeps the low 32 bits of any other
  value. In a segment whose index holds no entry past those of \<open>[baseOffset, nextOffset)\<close>,
  \<open>Read(offset)\<close> returns \<open>io.EOF\<close>, and leaves segment and disk alone, for every
  offset from \<open>nextOffset\<close> up to, not including, \<open>baseOffset + 2 ^ 32\<close>, and for every
  offset below \<open>baseOffset\<close> by at least 2 and at most \<open>2 ^ 32 - (nextOffset - baseOffset)\<close>.
\<close>

theorem segment_Read_out_of_range:
  assumes inv: "unat (size_index (index s)) < 12 * unat (nextOffset s - baseOffset s) + 12"
    and ord: "baseOffset s \<le> nextOffset s"
    and range: "(nextOffset s \<le> off \<and> unat off - unat (baseOffset s) < 2 ^ 32) \<or>
                (off < baseOffset s \<and> 2 \<le> unat (baseOffset s) - unat off \<and>
                 unat (baseOffset s) - unat off + unat (nextOffset s - baseOffset s) \<le> 2 ^ 32)"
  shows "segment_Read u s off w = (Err EOF, s, w)"
proof -
  let ?rel = "off - baseOffset s"
  let ?n = "unat (nextOffset s - baseOffset s)"
  have n: "?n = unat (nextOffset s) - unat (baseOffset s)"
    using ord by (simp add: unat_sub)
  have ordn: "unat (baseOffset s) \<le> unat (nextOffset s)"
    using ord by (simp add: word_le_nat_alt)
  have "size_index (index s) = 0 \<or>
        (?rel \<noteq> - 1 \<and> unat (size_index (index s)) < 12 * unat (ucast ?rel :: uint32) + 12)"
    using range
  proof
    assume above: "nextOffset s \<le> off \<and> unat off - unat (baseOffset s) < 2 ^ 32"
    then have le: "unat (nextOffset s) \<le> unat off"
      by (simp add: word_le_nat_alt)
    have "baseOffset s \<le> off"
      using ord above by auto
    then have rel: "unat ?rel = unat off - unat (baseOffset s)"
      by (simp add: unat_sub)
    have small: "unat ?rel < 2 ^ 32"
      using above rel by simp
    have "unat ?rel \<noteq> unat (- 1 :: uint64)"
      using small by (simp add: unat_minus_1_64)
    then have ne: "?rel \<noteq> - 1"
      by auto
    have "unat (ucast ?rel :: uint32) = unat ?rel"
      using small by (simp add: unat_ucast_64_32)
    then have "unat (size_index (index s)) < 12 * unat (ucast ?rel :: uint32) + 12"
      using inv n rel le ordn by simp
    with ne show ?thesis by simp
  next
    assume below: "off < baseOffset s \<and> 2 \<le> unat (baseOffset s) - unat off \<and>
                 unat (baseOffset s) - unat off + ?n \<le> 2 ^ 32"
    let ?d = "unat (baseOffset s) - unat off"
    have lt: "unat off < unat (baseOffset s)"
      using below by (simp add: word_less_nat_alt)
    have d: "2 \<le> ?d" "?d + ?n \<le> 2 ^ 32"
      using below by simp_all
    have "unat (baseOffset s) < 2 ^ 64"
      using unsigned_less [of "baseOffset s", where 'a = nat] by simp
    then have rel: "unat ?rel = 2 ^ 64 - ?d"
      using lt by (simp add: unat_sub_if_size word_size)
    have "unat ?rel \<noteq> unat (- 1 :: uint64)"
      using rel d(1) by (simp add: unat_minus_1_64)
    then have ne: "?rel \<noteq> - 1"
      by auto
    have low: "unat (ucast ?rel :: uint32) = (2 ^ 32 - ?d) mod 2 ^ 32"
      using d wrap_low_bits [of ?d] by (simp add: unat_ucast_64_32 rel)
    show ?thesis
    proof (cases "?d = 2 ^ 32")
      case True
      then have "?n = 0" "unat (ucast ?rel :: uint32) = 0"
        using d(2) low by simp_all
      then have "unat (size_index (index s)) < 12 * unat (ucast ?rel :: uint32) + 12"
        using inv by simp
      with ne show ?thesis by simp
    next
      case False
      then have "?d < 2 ^ 32" using d(2) by simp
      then have "unat (ucast ?rel :: uint32) = 2 ^ 32 - ?d"
        using low d(1) by simp
      then have "unat (size_index (index s)) < 12 * unat (ucast ?rel :: uint32) + 12"
        using inv d(2) by simp
      with ne show ?thesis by simp
    qed
  qed
  then have "index_Read (index s) ?rel = Err EOF"
    by (rule index_Read_EOF)
  then show ?thesis
    by (simp add: segment_Read_def)
qed

text \<open>On the segment of the test after one append: offset 17 above, offset 14 below.\<close>

theorem segment_Read_out_of_range_witness:
  "segment_Read plain_Unmarshal (test_segment 16 (frame 16) 27 (test_index 16 zeros36 12) 17) 17
       (test_disk 16 [] zeros36) =
     (Err EOF, test_segment 16 (frame 16) 27 (test_index 16 zeros36 12) 17,
      test_disk 16 [] zeros36) \<and>
   segment_Read plain_Unmarshal (test_segment 16 (frame 16) 27 (test_index 16 zeros36 12) 17) 14
       (test_disk 16 [] zeros36) =
     (Err EOF, test_segment 16 (frame 16) 27 (test_index 16 zeros36 12) 17,
      test_disk 16 [] zeros36)"
proof -
  let ?s = "test_segment 16 (frame 16) 27 (test_index 16 zeros36 12) 17"
  have inv: "unat (size_index (index ?s)) < 12 * unat (nextOffset ?s - baseOffset ?s) + 12"
    by (simp add: test_segment_def test_index_def)
  have ord: "baseOffset ?s \<le> nextOffset ?s"
    by (simp add: test_segment_def)
  have above: "(nextOffset ?s \<le> 17 \<and> unat (17 :: uint64) - unat (baseOffset ?s) < 2 ^ 32) \<or>
      (17 < baseOffset ?s \<and> 2 \<le> unat (baseOffset ?s) - unat (17 :: uint64) \<and>
       unat (baseOffset ?s) - unat (17 :: uint64) + unat (nextOffset ?s - baseOffset ?s) \<le> 2 ^ 32)"
    by (simp add: test_segment_def)
  have below: "(nextOffset ?s \<le> 14 \<and> unat (14 :: uint64) - unat (baseOffset ?s) < 2 ^ 32) \<or>
      (14 < baseOffset ?s \<and> 2 \<le> unat (baseOffset ?s) - unat (14 :: uint64) \<and>
       unat (baseOffset ?s) - unat (14 :: uint64) + unat (nextOffset ?s - baseOffset ?s) \<le> 2 ^ 32)"
    by (simp add: test_segment_def)
  show ?thesis
    using segment_Read_out_of_range [OF inv ord above, of plain_Unmarshal "test_disk 16 [] zeros36"]
      segment_Read_out_of_range [OF inv ord below, of plain_Unmarshal "test_disk 16 [] zeros36"]
    by simp
qed

text \<open>
  C2, as stated, fails one below the base offset and \<open>2 ^ 32\<close> above an offset of the
  segment: on the segment of the test after one append, which holds offset 16 only,
  \<open>Read(15)\<close> and \<open>Read(16 + 2 ^ 32)\<close> both return the record of offset 16.
\<close>

theorem segment_Read_outside_returns_record:
  "baseOffset (test_segment 16 (frame 16) 27 (test_index 16 zeros36 12) 17) = 16 \<and>
   nextOffset (test_segment 16 (frame 16) 27 (test_index 16 zeros36 12) 17) = 17 \<and>
   fst (segment_Read plain_Unmarshal (test_segment 16 (frame 16) 27 (test_index 16 zeros36 12) 17)
          15 (test_disk 16 [] zeros36)) = Ok \<lparr>Value = hello_world, Offset = 16\<rparr> \<and>
   fst (segment_Read plain_Unmarshal (test_segment 16 (frame 16) 27 (test_index 16 zeros36 12) 17)
          4294967312 (test_disk 16 [] zeros36)) = Ok \<lparr>Value = hello_world, Offset = 16\<rparr>"
  by (simp add: read_run_defs test_defs)

subsection \<open>Close and reopen\<close>

lemma zero_padding: "replicate (numeral k) (0 :: byte) = 0 # replicate (pred_numeral k) 0"
  unfolding numeral_eq_Suc by simp

lemmas close_run_defs = fun_eq_iff segment_Close_def index_Close_def store_Close_def
  bufio_Flush_def file_Write_def os_defs

lemmas reopen_run_defs = newSegment_def newStore_def newIndex_def os_defs index_Read_def
  slice_def Uint32_def Uint64_def bufio_NewWriter_def entryWidth_def offWidth_def posWidth_def
  Let_def zero_padding fun_eq_iff

text \<open>With one record the segment comes back as it was closed.\<close>

lemma run_Close_one:
  "segment_Close (test_segment 16 (frame 16) 27 (test_index 16 zeros36 12) 17)
       (test_disk 16 [] zeros36) =
     (None, test_segment 16 [] 27 (test_index 16 zeros36 12) 17,
      test_disk 16 (frame 16) (take 12 zeros36))"
  by (simp add: close_run_defs test_defs)

lemma run_reopen_one:
  "newSegment ''d'' 16 test_Config (test_disk 16 (frame 16) (take 12 zeros36)) =
     (Ok (test_segment 16 [] 27 (test_index 16 zeros36 12) 17), test_disk 16 (frame 16) zeros36)"
  by (simp add: reopen_run_defs test_defs)

lemma run_Close_two:
  "segment_Close (test_segment 16 (frame 16 @ frame 17) 54 index_two_entries 18)
       (test_disk 16 [] zeros36) =
     (None, test_segment 16 [] 54 index_two_entries 18,
      test_disk 16 (frame 16 @ frame 17) (take 24 (mmap index_two_entries)))"
  by (simp add: close_run_defs test_defs index_two_entries_def)

text \<open>
  With two records or more it does not come back: \<open>newSegment\<close> returns no segment
  when the index file on disk has 24 bytes or more (and less than \<open>2 ^ 32\<close>).
\<close>

lemma newSegment_resume_panics:
  assumes "files w (IndexPath dir B) = Some d"
    and "24 \<le> length d" and "length d < 2 ^ 32"
    and "newSegment dir B c w = (r, w1)"
  shows "r \<noteq> Ok s"
proof -
  have sz: "unat (word_of_nat (length d) :: uint64) = length d"
    using assms(3) by (simp add: unat_of_nat)
  have "index_Read \<lparr>file_index = IndexPath dir B, mmap = m,
                    size_index = word_of_nat (length d)\<rparr> (- 1) = Panic" for m
    using assms(2,3) by (intro index_Read_last_panics) (simp_all add: sz)
  then show ?thesis
    using assms(1,4)
    by (auto simp: newSegment_def newIndex_def os_defs
             split: sum.splits result.splits prod.splits option.splits if_splits)
qed

text \<open>
  C5. The segment of the test with two records, closed without error: the index file is
  cut to its 24 bytes and the store file holds both frames. \<open>newSegment\<close> on these files
  panics in \<open>index.Read(-1)\<close>, which resolves to entry 1.
\<close>

theorem newSegment_reopen_two_records_panics:
  "segment_Close (test_segment 16 (frame 16 @ frame 17) 54 index_two_entries 18)
       (test_disk 16 [] zeros36) =
     (None, test_segment 16 [] 54 index_two_entries 18,
      test_disk 16 (frame 16 @ frame 17) (take 24 (mmap index_two_entries))) \<and>
   fst (newSegment ''d'' 16 test_Config
          (test_disk 16 (frame 16 @ frame 17) (take 24 (mmap index_two_entries)))) = Panic"
proof -
  have "fst (newSegment ''d'' 16 test_Config
          (test_disk 16 (frame 16 @ frame 17) (take 24 (mmap index_two_entries)))) = Panic"
    by (simp add: reopen_run_defs test_defs index_two_entries_def)
  then show ?thesis
    using run_Close_two by simp
qed

end
